theory Spec2Isabelle
  imports Main
begin

section \<open>The legacy dumpsys shim (system/main/shim/dumpsys.cc)\<close>

text \<open>
  The file keeps one process-wide \<^verbatim>\<open>std::unordered_map<const void*, DumpsysFunction>\<close>
  and offers three operations on it: \<^verbatim>\<open>RegisterDumpsysFunction\<close>,
  \<^verbatim>\<open>UnregisterDumpsysFunction\<close> and \<^verbatim>\<open>Dump\<close>. The embedding passes the process
  state explicitly. What an operation does to the outside world (text written with
  \<^verbatim>\<open>dprintf\<close>, calls of registered handlers, the call across the module boundary, the
  wait on the future) is recorded, in program order, in a trace of events.
\<close>

subsection \<open>Data\<close>

text \<open>
  A token is a \<^verbatim>\<open>const void*\<close>: an address that is only hashed and compared. A handler is a
  \<^verbatim>\<open>std::function<void(int fd)>\<close>; the shim never looks inside it, so its type stays a
  parameter \<open>'h\<close> and a call of it is an event. A handler is taken not to call back into the
  registry (it receives the file descriptor and nothing else).
\<close>

type_synonym token = nat
type_synonym fd = int
type_synonym args = "string list"

datatype 'h event =
    Dprintf fd string
  | HandlerCall token 'h fd
  | CallOnModule nat fd args
  | WaitFor nat nat

text \<open>
  \<open>Dprintf fd txt\<close>: the shim itself wrote \<open>txt\<close> to \<open>fd\<close>.
  \<open>HandlerCall tok f fd\<close>: the handler \<open>f\<close> stored under \<open>tok\<close> was called with \<open>fd\<close>.
  \<open>CallOnModule p fd args\<close>: the closure capturing promise number \<open>p\<close>, \<open>fd\<close> and \<open>args\<close> was
  handed to \<^verbatim>\<open>Stack::CallOnModule<shim::Dumpsys>\<close>.
  \<open>WaitFor p d\<close>: the caller blocked in \<^verbatim>\<open>future.wait_for\<close> on promise \<open>p\<close> for \<open>d\<close> nanoseconds.
\<close>

record 'h shim_state =
  dumpsys_functions :: "(token \<times> 'h) list"
  promises :: nat
  trace :: "'h event list"

text \<open>
  \<open>dumpsys_functions\<close> is the unordered map \<^verbatim>\<open>dumpsys_functions_\<close> of the source (an
  Isabelle name cannot end in an underscore), kept as the list of its entries in iteration
  order. \<open>promises\<close> counts the \<^verbatim>\<open>std::promise\<close> objects constructed so far; the next one
  constructed gets that number, so that two promise objects never share a number.
\<close>

datatype 'a outcome = Returned 'a | Aborted string 'a

text \<open>
  \<open>Returned s\<close>: the call came back to its caller in state \<open>s\<close>. \<open>Aborted msg s\<close>: the process
  was aborted with the fatal message \<open>msg\<close>, having reached state \<open>s\<close>; nothing runs after it.
\<close>

fun state_of :: "'a outcome \<Rightarrow> 'a" where
  "state_of (Returned s) = s"
| "state_of (Aborted msg s) = s"

fun is_returned :: "'a outcome \<Rightarrow> bool" where
  "is_returned (Returned s) = True"
| "is_returned (Aborted msg s) = False"

subsection \<open>The unordered map\<close>

text \<open>
  \<^verbatim>\<open>find(k) == end()\<close> is \<open>um_find m k = None\<close>. \<^verbatim>\<open>insert\<close> adds the pair only when the
  key is not yet there. \<^verbatim>\<open>erase(k)\<close> removes the entries with key \<open>k\<close>. The standard leaves
  the iteration order open; the model puts a new entry first, and every statement below
  about \<open>Dump\<close> is made for an arbitrary list, hence for every order.
\<close>

definition um_find :: "('k \<times> 'v) list \<Rightarrow> 'k \<Rightarrow> 'v option" where
  "um_find m k = map_of m k"

definition um_insert :: "'k \<times> 'v \<Rightarrow> ('k \<times> 'v) list \<Rightarrow> ('k \<times> 'v) list" where
  "um_insert kv m = (case um_find m (fst kv) of None \<Rightarrow> kv # m | Some v \<Rightarrow> m)"

definition um_erase :: "'k \<Rightarrow> ('k \<times> 'v) list \<Rightarrow> ('k \<times> 'v) list" where
  "um_erase k m = filter (\<lambda>kv. fst kv \<noteq> k) m"

definition um_keys :: "('k \<times> 'v) list \<Rightarrow> 'k set" where
  "um_keys m = set (map fst m)"

subsection \<open>Fatal assertions\<close>

text \<open>
  Modelled from the spec: \<^verbatim>\<open>log::assert_that\<close> (bluetooth/log.h, not part of this file).
  The spec calls a violated precondition "fatal, surfaced immediately via an
  assertion-style abort, never recovered": when the condition is false the process is
  aborted with the message, otherwise execution goes on.
\<close>

definition assert_that :: "bool \<Rightarrow> string \<Rightarrow> 'a \<Rightarrow> 'a outcome" where
  "assert_that cond msg s = (if cond then Returned s else Aborted msg s)"

subsection \<open>Register and Unregister\<close>

definition RegisterDumpsysFunction :: "token \<Rightarrow> 'h \<Rightarrow> 'h shim_state \<Rightarrow> 'h shim_state outcome" where
  "RegisterDumpsysFunction token func s =
     (case assert_that (um_find (dumpsys_functions s) token = None)
             ''assert failed: dumpsys_functions_.find(token) == dumpsys_functions_.end()'' s of
        Aborted msg s' \<Rightarrow> Aborted msg s'
      | Returned s' \<Rightarrow>
          Returned (s'\<lparr>dumpsys_functions := um_insert (token, func) (dumpsys_functions s')\<rparr>))"

definition UnregisterDumpsysFunction :: "token \<Rightarrow> 'h shim_state \<Rightarrow> 'h shim_state outcome" where
  "UnregisterDumpsysFunction token s =
     (case assert_that (um_find (dumpsys_functions s) token \<noteq> None)
             ''assert failed: dumpsys_functions_.find(token) != dumpsys_functions_.end()'' s of
        Aborted msg s' \<Rightarrow> Aborted msg s'
      | Returned s' \<Rightarrow>
          Returned (s'\<lparr>dumpsys_functions := um_erase token (dumpsys_functions s')\<rparr>))"

subsection \<open>Dump\<close>

definition kModuleName :: string where
  "kModuleName = ''shim::legacy::dumpsys''"

definition emit :: "'h event \<Rightarrow> 'h shim_state \<Rightarrow> 'h shim_state" where
  "emit e s = s\<lparr>trace := trace s @ [e]\<rparr>"

definition dprintf :: "fd \<Rightarrow> string \<Rightarrow> 'h shim_state \<Rightarrow> 'h shim_state" where
  "dprintf fd txt s = emit (Dprintf fd txt) s"

text \<open>
  The conversion \<^verbatim>\<open>%zd\<close> of a container size: the number in decimal. \<open>digit_char\<close>
  is only applied to numbers below ten.
\<close>

definition digit_char :: "nat \<Rightarrow> char" where
  "digit_char d = ''0123456789'' ! d"

function show_zd :: "nat \<Rightarrow> string" where
  "show_zd n = (if n < 10 then [digit_char n] else show_zd (n div 10) @ [digit_char (n mod 10)])"
  by pat_completeness auto
termination
  by (relation "measure id") auto

declare show_zd.simps [simp del]

text \<open>The range-for loop of lines 54 to 56: one handler call per entry, in iteration order.\<close>

fun call_each :: "(token \<times> 'h) list \<Rightarrow> fd \<Rightarrow> 'h shim_state \<Rightarrow> 'h shim_state" where
  "call_each [] fd s = s"
| "call_each (dumpsys # rest) fd s =
     call_each rest fd (emit (HandlerCall (fst dumpsys) (snd dumpsys) fd) s)"

text \<open>
  The module boundary is outside this file: \<^verbatim>\<open>Stack::CallOnModule\<close> lives in
  main/shim/stack.h and the module's own \<^verbatim>\<open>Dump\<close> in shim/dumpsys.h. \<open>Dump\<close> sees two
  things of them, which are its parameters here: whether \<^verbatim>\<open>CallOnModule\<close> returned true,
  and when (in nanoseconds after the wait starts, if ever) the shared state of the
  promise given to the closure becomes ready. That is the completion signal: the state
  becomes ready when the module sets the promise's value (or lets go of the promise).
\<close>

record module_boundary =
  call_on_module :: bool
  ready_after :: "nat option"

datatype future_status = ready | timeout

text \<open>
  \<^verbatim>\<open>std::future::wait_for\<close>: blocks until the shared state is ready or the duration has
  passed, whichever comes first; returns the status and (here) the time spent blocked.
  A state that becomes ready at the very end of the duration is still found ready.
\<close>

definition wait_for :: "nat \<Rightarrow> nat option \<Rightarrow> future_status \<times> nat" where
  "wait_for rel_time rdy =
     (case rdy of
        None \<Rightarrow> (timeout, rel_time)
      | Some t \<Rightarrow> if t \<le> rel_time then (ready, t) else (timeout, rel_time))"

definition seconds :: "nat \<Rightarrow> nat" where
  "seconds n = n * 1000000000"

definition new_promise :: "'h shim_state \<Rightarrow> nat \<times> 'h shim_state" where
  "new_promise s = (promises s, s\<lparr>promises := Suc (promises s)\<rparr>)"

text \<open>Lines 50 to 57: the registered handlers.\<close>

definition collect_local :: "fd \<Rightarrow> 'h shim_state \<Rightarrow> 'h shim_state" where
  "collect_local fd s =
     (if dumpsys_functions s = []
      then dprintf fd (kModuleName @ '' No registered dumpsys shim legacy targets\<newline>'') s
      else call_each (dumpsys_functions s) fd
             (dprintf fd (kModuleName @ '' Dumping shim legacy targets:''
                            @ show_zd (length (dumpsys_functions s)) @ ''\<newline>'') s))"

text \<open>
  Lines 58 to 68: a new promise and its future, the closure handed to
  \<^verbatim>\<open>CallOnModule\<close>, then either the bounded wait under the assertion or the note that
  the module is not there.
\<close>

definition await_module :: "module_boundary \<Rightarrow> fd \<Rightarrow> args \<Rightarrow> 'h shim_state \<Rightarrow> 'h shim_state outcome" where
  "await_module mb fd args s =
     (let (promise, s2) = new_promise s;
          s3 = emit (CallOnModule promise fd args) s2
      in if call_on_module mb
         then (let (status, blocked) = wait_for (seconds 1) (ready_after mb);
                   s4 = emit (WaitFor promise blocked) s3
               in assert_that (status = ready) ''Timed out waiting for dumpsys to complete'' s4)
         else Returned (dprintf fd (kModuleName @ '' NOTE: gd dumpsys module not loaded or started\<newline>'') s3))"

definition Dump :: "module_boundary \<Rightarrow> fd \<Rightarrow> args \<Rightarrow> 'h shim_state \<Rightarrow> 'h shim_state outcome" where
  "Dump mb fd args s = await_module mb fd args (collect_local fd s)"

subsection \<open>Sequences of calls\<close>

text \<open>
  The process starts with an empty map (a static object, default constructed) and no
  promise made. A client is a sequence of calls; an abort ends it.
\<close>

definition initial :: "'h shim_state" where
  "initial = \<lparr>dumpsys_functions = [], promises = 0, trace = []\<rparr>"

datatype 'h call =
    Register token 'h
  | Unregister token
  | DumpCall module_boundary fd args

fun perform :: "'h call \<Rightarrow> 'h shim_state \<Rightarrow> 'h shim_state outcome" where
  "perform (Register token func) s = RegisterDumpsysFunction token func s"
| "perform (Unregister token) s = UnregisterDumpsysFunction token s"
| "perform (DumpCall mb fd args) s = Dump mb fd args s"

fun run_calls :: "'h call list \<Rightarrow> 'h shim_state \<Rightarrow> 'h shim_state outcome" where
  "run_calls [] s = Returned s"
| "run_calls (c # cs) s =
     (case perform c s of
        Aborted msg s' \<Rightarrow> Aborted msg s'
      | Returned s' \<Rightarrow> run_calls cs s')"

subsection \<open>Reading a trace\<close>

fun handler_call :: "'h event \<Rightarrow> bool" where
  "handler_call (HandlerCall tok f fd) = True"
| "handler_call e = False"

fun submitted :: "'h event \<Rightarrow> nat list" where
  "submitted (CallOnModule p fd args) = [p]"
| "submitted e = []"

fun waited :: "'h event \<Rightarrow> bool" where
  "waited (WaitFor p d) = True"
| "waited e = False"

fun written :: "'h event \<Rightarrow> bool" where
  "written (Dprintf fd txt) = True"
| "written e = False"

definition handler_calls :: "'h event list \<Rightarrow> 'h event list" where
  "handler_calls tr = filter handler_call tr"

definition submissions :: "'h event list \<Rightarrow> nat list" where
  "submissions tr = concat (map submitted tr)"

definition waits :: "'h event list \<Rightarrow> 'h event list" where
  "waits tr = filter waited tr"

definition writes :: "'h event list \<Rightarrow> 'h event list" where
  "writes tr = filter written tr"

text \<open>The events a call added to the trace: those of the state after it beyond the state before.\<close>

definition events_since :: "'h shim_state \<Rightarrow> 'h shim_state \<Rightarrow> 'h event list" where
  "events_since s s' = drop (length (trace s)) (trace s')"

text \<open>The handlers stored under one token.\<close>

definition handlers_of :: "token \<Rightarrow> (token \<times> 'h) list \<Rightarrow> 'h list" where
  "handlers_of tok m = map snd (filter (\<lambda>kv. fst kv = tok) m)"

text \<open>
  The most recent call of a sequence that names a token, as the spec words the net
  effect of a sequence ("its most recent operation").
\<close>

fun names_token :: "token \<Rightarrow> 'h call \<Rightarrow> bool" where
  "names_token t (Register tok func) = (t = tok)"
| "names_token t (Unregister tok) = (t = tok)"
| "names_token t (DumpCall mb fd args) = False"

fun most_recent :: "token \<Rightarrow> 'h call list \<Rightarrow> 'h call option" where
  "most_recent t [] = None"
| "most_recent t (c # cs) =
     (case most_recent t cs of
        Some c' \<Rightarrow> Some c'
      | None \<Rightarrow> if names_token t c then Some c else None)"

fun registers :: "'h call \<Rightarrow> bool" where
  "registers (Register tok func) = True"
| "registers c = False"

definition last_was_Register :: "token \<Rightarrow> 'h call list \<Rightarrow> bool" where
  "last_was_Register t cs = (case most_recent t cs of None \<Rightarrow> False | Some c \<Rightarrow> registers c)"

subsection \<open>Threads\<close>

text \<open>
  The file takes no lock and declares no mutex: a thread that calls into it runs the
  statements of the function one after the other on the shared map, and another thread's
  statements may run in between. The statements are named by their line. Each is taken
  as one indivisible step and the whole range-for loop as one step, which is more than the
  language promises for unsynchronised access; the model errs on the side of the code.
\<close>

datatype 'h pc =
    L38 token 'h
  | L40 token 'h
  | L44 token
  | L46 token
  | L50 module_boundary fd args
  | L51 module_boundary fd args
  | L53 module_boundary fd args
  | L54 module_boundary fd args
  | L58 module_boundary fd args
  | Finished

fun stmt :: "'h pc \<Rightarrow> 'h shim_state \<Rightarrow> ('h pc \<times> 'h shim_state) outcome" where
  "stmt (L38 token func) s =
     (case assert_that (um_find (dumpsys_functions s) token = None)
             ''assert failed: dumpsys_functions_.find(token) == dumpsys_functions_.end()'' s of
        Aborted msg s' \<Rightarrow> Aborted msg (L38 token func, s')
      | Returned s' \<Rightarrow> Returned (L40 token func, s'))"
| "stmt (L40 token func) s =
     Returned (Finished, s\<lparr>dumpsys_functions := um_insert (token, func) (dumpsys_functions s)\<rparr>)"
| "stmt (L44 token) s =
     (case assert_that (um_find (dumpsys_functions s) token \<noteq> None)
             ''assert failed: dumpsys_functions_.find(token) != dumpsys_functions_.end()'' s of
        Aborted msg s' \<Rightarrow> Aborted msg (L44 token, s')
      | Returned s' \<Rightarrow> Returned (L46 token, s'))"
| "stmt (L46 token) s =
     Returned (Finished, s\<lparr>dumpsys_functions := um_erase token (dumpsys_functions s)\<rparr>)"
| "stmt (L50 mb fd args) s =
     Returned (if dumpsys_functions s = [] then L51 mb fd args else L53 mb fd args, s)"
| "stmt (L51 mb fd args) s =
     Returned (L58 mb fd args,
               dprintf fd (kModuleName @ '' No registered dumpsys shim legacy targets\<newline>'') s)"
| "stmt (L53 mb fd args) s =
     Returned (L54 mb fd args,
               dprintf fd (kModuleName @ '' Dumping shim legacy targets:''
                             @ show_zd (length (dumpsys_functions s)) @ ''\<newline>'') s)"
| "stmt (L54 mb fd args) s =
     Returned (L58 mb fd args, call_each (dumpsys_functions s) fd s)"
| "stmt (L58 mb fd args) s =
     (case await_module mb fd args s of
        Aborted msg s' \<Rightarrow> Aborted msg (L58 mb fd args, s')
      | Returned s' \<Rightarrow> Returned (Finished, s'))"
| "stmt Finished s = Returned (Finished, s)"

fun start :: "'h call \<Rightarrow> 'h pc" where
  "start (Register token func) = L38 token func"
| "start (Unregister token) = L44 token"
| "start (DumpCall mb fd args) = L50 mb fd args"

text \<open>
  A schedule is the list of thread numbers in the order in which the threads take their
  steps. An abort ends the process whatever the other threads were doing.
\<close>

fun exec :: "nat list \<Rightarrow> 'h pc list \<Rightarrow> 'h shim_state \<Rightarrow> ('h pc list \<times> 'h shim_state) outcome" where
  "exec [] pcs s = Returned (pcs, s)"
| "exec (i # sched) pcs s =
     (if i < length pcs
      then (case stmt (pcs ! i) s of
              Aborted msg (pc', s') \<Rightarrow> Aborted msg (pcs[i := pc'], s')
            | Returned (pc', s') \<Rightarrow> exec sched (pcs[i := pc']) s')
      else exec sched pcs s)"

fun shared :: "('p \<times> 's) outcome \<Rightarrow> 's outcome" where
  "shared (Returned (p, s)) = Returned s"
| "shared (Aborted msg (p, s)) = Aborted msg s"

text \<open>No call takes more than four steps; a serial schedule gives each thread four in turn.\<close>

definition serial :: "nat \<Rightarrow> nat \<Rightarrow> nat list" where
  "serial k n = concat (map (replicate 4) [k ..< k + n])"

text \<open>
  Two calls made by two threads are atomic with respect to each other under a schedule
  when the outcome is that of the two calls made one after the other, in one order or
  the other.
\<close>

definition atomic_pair :: "nat list \<Rightarrow> 'h call \<Rightarrow> 'h call \<Rightarrow> 'h shim_state \<Rightarrow> bool" where
  "atomic_pair sched a b s \<longleftrightarrow>
     shared (exec sched [start a, start b] s) = run_calls [a, b] s
     \<or> shared (exec sched [start a, start b] s) = run_calls [b, a] s"

section \<open>Properties\<close>

lemma um_find_None_iff: "um_find m k = None \<longleftrightarrow> k \<notin> um_keys m"
  by (simp add: um_find_def um_keys_def map_of_eq_None_iff)

subsection \<open>The map and the state under the basic operations\<close>

lemma um_keys_insert: "um_find m k = None \<Longrightarrow> um_keys (um_insert (k, v) m) = insert k (um_keys m)"
  by (simp add: um_insert_def um_keys_def)

lemma um_keys_erase: "um_keys (um_erase k m) = um_keys m - {k}"
  by (auto simp: um_erase_def um_keys_def)

lemma distinct_um_insert: "distinct (map fst m) \<Longrightarrow> distinct (map fst (um_insert kv m))"
  by (auto simp: um_insert_def um_find_def map_of_eq_None_iff split: option.splits)

lemma distinct_um_erase: "distinct (map fst m) \<Longrightarrow> distinct (map fst (um_erase k m))"
  by (simp add: um_erase_def distinct_map_filter)

lemma emit_fields [simp]:
  "dumpsys_functions (emit e s) = dumpsys_functions s"
  "promises (emit e s) = promises s"
  "trace (emit e s) = trace s @ [e]"
  by (simp_all add: emit_def)

lemma dprintf_fields [simp]:
  "dumpsys_functions (dprintf fd txt s) = dumpsys_functions s"
  "promises (dprintf fd txt s) = promises s"
  "trace (dprintf fd txt s) = trace s @ [Dprintf fd txt]"
  by (simp_all add: dprintf_def)

lemma call_each_fields [simp]:
  "dumpsys_functions (call_each m fd s) = dumpsys_functions s"
  "promises (call_each m fd s) = promises s"
  "trace (call_each m fd s) = trace s @ map (\<lambda>d. HandlerCall (fst d) (snd d) fd) m"
  by (induction m arbitrary: s) simp_all

lemma collect_local_fields:
  "dumpsys_functions (collect_local fd s) = dumpsys_functions s"
  "promises (collect_local fd s) = promises s"
  by (simp_all add: collect_local_def)

lemma await_module_fields:
  "dumpsys_functions (state_of (await_module mb fd args s)) = dumpsys_functions s"
  "promises (state_of (await_module mb fd args s)) = Suc (promises s)"
  by (simp_all add: await_module_def new_promise_def assert_that_def Let_def case_prod_beta)

lemma await_module_trace:
  "trace (state_of (await_module mb fd args s)) =
     trace s @ CallOnModule (promises s) fd args #
       (if call_on_module mb then [WaitFor (promises s) (snd (wait_for (seconds 1) (ready_after mb)))]
        else [Dprintf fd (kModuleName @ '' NOTE: gd dumpsys module not loaded or started\<newline>'')])"
  by (simp add: await_module_def new_promise_def assert_that_def Let_def case_prod_beta)

subsection \<open>Misuse of the registry is fatal\<close>

text \<open>
  Claim C3. Registering a token that is already in the registry aborts the process on the
  assertion of line 38, and unregistering a token that is not there aborts it on the
  assertion of line 44. The abort leaves the registry as it was and is final: whatever
  calls were to follow (\<open>rest\<close>, \<open>rest'\<close>) never run.
\<close>

theorem registry_misuse_is_fatal:
  "(tok \<in> um_keys (dumpsys_functions s) \<longrightarrow>
      RegisterDumpsysFunction tok func s =
        Aborted ''assert failed: dumpsys_functions_.find(token) == dumpsys_functions_.end()'' s
      \<and> run_calls (Register tok func # rest) s =
        Aborted ''assert failed: dumpsys_functions_.find(token) == dumpsys_functions_.end()'' s)
   \<and> (tok' \<notin> um_keys (dumpsys_functions s) \<longrightarrow>
      UnregisterDumpsysFunction tok' s =
        Aborted ''assert failed: dumpsys_functions_.find(token) != dumpsys_functions_.end()'' s
      \<and> run_calls (Unregister tok' # rest') s =
        Aborted ''assert failed: dumpsys_functions_.find(token) != dumpsys_functions_.end()'' s)"
  by (simp add: RegisterDumpsysFunction_def UnregisterDumpsysFunction_def assert_that_def
      um_find_None_iff)

theorem registry_misuse_is_fatal_witness:
  "(1::nat) \<in> um_keys (dumpsys_functions \<lparr>dumpsys_functions = [(1, ''a'')], promises = 0, trace = []\<rparr>)
   \<and> RegisterDumpsysFunction 1 ''b'' \<lparr>dumpsys_functions = [(1, ''a'')], promises = 0, trace = []\<rparr> =
        Aborted ''assert failed: dumpsys_functions_.find(token) == dumpsys_functions_.end()''
          \<lparr>dumpsys_functions = [(1, ''a'')], promises = 0, trace = []\<rparr>
   \<and> run_calls [Register 1 ''b'', Unregister 1]
          \<lparr>dumpsys_functions = [(1, ''a'')], promises = 0, trace = []\<rparr> =
        Aborted ''assert failed: dumpsys_functions_.find(token) == dumpsys_functions_.end()''
          \<lparr>dumpsys_functions = [(1, ''a'')], promises = 0, trace = []\<rparr>
   \<and> (2::nat) \<notin> um_keys (dumpsys_functions \<lparr>dumpsys_functions = [(1, ''a'')], promises = 0, trace = []\<rparr>)
   \<and> UnregisterDumpsysFunction 2 \<lparr>dumpsys_functions = [(1, ''a'')], promises = 0, trace = []\<rparr> =
        Aborted ''assert failed: dumpsys_functions_.find(token) != dumpsys_functions_.end()''
          \<lparr>dumpsys_functions = [(1, ''a'')], promises = 0, trace = []\<rparr>
   \<and> run_calls [Unregister 2, Register 5 ''c'']
          \<lparr>dumpsys_functions = [(1, ''a'')], promises = 0, trace = []\<rparr> =
        Aborted ''assert failed: dumpsys_functions_.find(token) != dumpsys_functions_.end()''
          \<lparr>dumpsys_functions = [(1, ''a'')], promises = 0, trace = []\<rparr>"
  using registry_misuse_is_fatal [where tok = 1 and tok' = 2 and func = "''b''"
      and s = "\<lparr>dumpsys_functions = [(1, ''a'')], promises = 0, trace = []\<rparr>"
      and rest = "[Unregister 1]" and rest' = "[Register 5 ''c'']"]
  by (simp add: um_keys_def)

subsection \<open>Dump does not touch the registry\<close>

text \<open>
  Claim C9. Whatever the module boundary does and whether \<open>Dump\<close> returns or aborts on
  the timeout, the registrations after the call are those before it, entry by entry
  (handlers being taken not to call back into the registry).
\<close>

theorem Dump_keeps_registry:
  "dumpsys_functions (state_of (Dump mb fd args s)) = dumpsys_functions s"
  by (simp add: Dump_def await_module_fields collect_local_fields)

theorem Dump_keeps_registry_witness:
  "dumpsys_functions (state_of (Dump \<lparr>call_on_module = True, ready_after = None\<rparr> 3 [''-a'']
       \<lparr>dumpsys_functions = [(1, ''a''), (2, ''b'')], promises = 0, trace = []\<rparr>))
     = [(1, ''a''), (2, ''b'')]"
  using Dump_keeps_registry [of "\<lparr>call_on_module = True, ready_after = None\<rparr>" 3 "[''-a'']"
      "\<lparr>dumpsys_functions = [(1, ''a''), (2, ''b'')], promises = 0, trace = []\<rparr>"]
  by simp

subsection \<open>One handler per token\<close>

lemma handlers_of_Cons:
  "handlers_of t (kv # m) = (if fst kv = t then snd kv # handlers_of t m else handlers_of t m)"
  by (simp add: handlers_of_def)

lemma handlers_of_Nil_iff: "handlers_of t m = [] \<longleftrightarrow> t \<notin> um_keys m"
  by (induction m) (auto simp: handlers_of_def um_keys_def)

lemma one_handler_iff_distinct:
  "(\<forall>t. length (handlers_of t m) \<le> 1) \<longleftrightarrow> distinct (map fst m)"
proof (induction m)
  case Nil
  show ?case by (simp add: handlers_of_def)
next
  case (Cons kv m)
  have keys: "fst kv \<in> fst ` set m \<longleftrightarrow> handlers_of (fst kv) m \<noteq> []"
    by (simp add: handlers_of_Nil_iff um_keys_def)
  show ?case
  proof
    assume all: "\<forall>t. length (handlers_of t (kv # m)) \<le> 1"
    then have "length (handlers_of (fst kv) (kv # m)) \<le> 1" by blast
    then have "handlers_of (fst kv) m = []" by (simp add: handlers_of_Cons)
    moreover have "\<forall>t. length (handlers_of t m) \<le> 1"
    proof
      fix t
      from all have "length (handlers_of t (kv # m)) \<le> 1" by blast
      then show "length (handlers_of t m) \<le> 1"
        by (simp add: handlers_of_Cons split: if_splits)
    qed
    ultimately show "distinct (map fst (kv # m))"
      using Cons.IH keys by simp
  next
    assume d: "distinct (map fst (kv # m))"
    then have "handlers_of (fst kv) m = []" using keys by simp
    moreover from d Cons.IH have "\<forall>t. length (handlers_of t m) \<le> 1" by simp
    ultimately show "\<forall>t. length (handlers_of t (kv # m)) \<le> 1"
      by (auto simp: handlers_of_Cons)
  qed
qed

lemma perform_distinct:
  "distinct (map fst (dumpsys_functions s)) \<Longrightarrow>
   distinct (map fst (dumpsys_functions (state_of (perform c s))))"
proof (cases c)
  case (Register tok func)
  assume "distinct (map fst (dumpsys_functions s))"
  then show ?thesis
    by (simp add: Register RegisterDumpsysFunction_def assert_that_def distinct_um_insert)
next
  case (Unregister tok)
  assume "distinct (map fst (dumpsys_functions s))"
  then show ?thesis
    by (simp add: Unregister UnregisterDumpsysFunction_def assert_that_def distinct_um_erase)
next
  case (DumpCall mb fd args)
  assume "distinct (map fst (dumpsys_functions s))"
  then show ?thesis
    by (simp add: DumpCall Dump_def await_module_fields collect_local_fields)
qed

lemma run_calls_distinct:
  "distinct (map fst (dumpsys_functions s)) \<Longrightarrow>
   distinct (map fst (dumpsys_functions (state_of (run_calls cs s))))"
proof (induction cs arbitrary: s)
  case Nil
  then show ?case by simp
next
  case (Cons c cs)
  show ?case
  proof (cases "perform c s")
    case (Returned s1)
    with perform_distinct [OF Cons.prems, of c] have "distinct (map fst (dumpsys_functions s1))"
      by simp
    from Cons.IH [OF this] show ?thesis by (simp add: Returned)
  next
    case (Aborted msg s1)
    with perform_distinct [OF Cons.prems, of c] show ?thesis by simp
  qed
qed

text \<open>
  Claim C7. After any sequence of Register, Unregister and Dump calls made from the
  initial state (hence at every point of such a sequence, each prefix being a sequence),
  a token has at most one handler; and every single call, from any state with that
  property, leads to a state with it.
\<close>

theorem one_handler_per_token:
  "length (handlers_of tok (dumpsys_functions (state_of (run_calls cs initial)))) \<le> 1
   \<and> ((\<forall>t. length (handlers_of t (dumpsys_functions s)) \<le> 1) \<longrightarrow>
        (\<forall>t. length (handlers_of t (dumpsys_functions (state_of (perform c s)))) \<le> 1))"
proof
  have "distinct (map fst (dumpsys_functions (state_of (run_calls cs initial))))"
    by (rule run_calls_distinct) (simp add: initial_def)
  then show "length (handlers_of tok (dumpsys_functions (state_of (run_calls cs initial)))) \<le> 1"
    using one_handler_iff_distinct by blast
next
  show "(\<forall>t. length (handlers_of t (dumpsys_functions s)) \<le> 1) \<longrightarrow>
        (\<forall>t. length (handlers_of t (dumpsys_functions (state_of (perform c s)))) \<le> 1)"
    using perform_distinct [of s c] by (simp only: one_handler_iff_distinct) blast
qed

theorem one_handler_per_token_witness:
  "length (handlers_of 2 (dumpsys_functions (state_of
       (run_calls [Register 1 ''a'', Register 2 ''b'', Unregister 1, Register 2 ''c''] initial)))) \<le> 1
   \<and> (\<forall>t. length (handlers_of t (dumpsys_functions
                \<lparr>dumpsys_functions = [(1, ''a'')], promises = 0, trace = []\<rparr>)) \<le> 1)
   \<and> (\<forall>t. length (handlers_of t (dumpsys_functions (state_of (perform (Register 2 ''b'')
                \<lparr>dumpsys_functions = [(1, ''a'')], promises = 0, trace = []\<rparr>)))) \<le> 1)"
proof -
  have h: "\<forall>t. length (handlers_of t (dumpsys_functions
                \<lparr>dumpsys_functions = [(1, ''a'')], promises = 0, trace = []\<rparr>)) \<le> 1"
    by (simp add: handlers_of_def)
  from h one_handler_per_token [where tok = 2 and c = "Register 2 ''b''"
      and cs = "[Register 1 ''a'', Register 2 ''b'', Unregister 1, Register 2 ''c'']"
      and s = "\<lparr>dumpsys_functions = [(1, ''a'')], promises = 0, trace = []\<rparr>"]
  show ?thesis by blast
qed

subsection \<open>Membership is the net effect of the calls\<close>

lemma perform_membership:
  "perform c s = Returned s' \<Longrightarrow>
   t \<in> um_keys (dumpsys_functions s') \<longleftrightarrow>
     (if names_token t c then registers c else t \<in> um_keys (dumpsys_functions s))"
proof (cases c)
  case (Register tok func)
  assume "perform c s = Returned s'"
  then show ?thesis
    by (auto simp: Register RegisterDumpsysFunction_def assert_that_def um_keys_insert
        split: if_splits)
next
  case (Unregister tok)
  assume "perform c s = Returned s'"
  then show ?thesis
    by (auto simp: Unregister UnregisterDumpsysFunction_def assert_that_def um_keys_erase
        split: if_splits)
next
  case (DumpCall mb fd args)
  assume "perform c s = Returned s'"
  then have "s' = state_of (Dump mb fd args s)" by (simp add: DumpCall)
  then show ?thesis
    by (simp add: DumpCall Dump_def await_module_fields collect_local_fields)
qed

lemma run_calls_membership:
  "run_calls cs s = Returned s' \<Longrightarrow>
   t \<in> um_keys (dumpsys_functions s') \<longleftrightarrow>
     (case most_recent t cs of None \<Rightarrow> t \<in> um_keys (dumpsys_functions s) | Some c \<Rightarrow> registers c)"
proof (induction cs arbitrary: s)
  case Nil
  then show ?case by simp
next
  case (Cons c cs)
  from Cons.prems obtain s1 where p: "perform c s = Returned s1" and r: "run_calls cs s1 = Returned s'"
    by (auto split: outcome.splits)
  show ?case
    using Cons.IH [OF r] perform_membership [OF p, of t]
    by (simp split: option.splits)
qed

lemma example_run:
  "run_calls [Register 1 ''a'', Register 2 ''b'', Unregister 1] initial =
     Returned \<lparr>dumpsys_functions = [(2, ''b'')], promises = 0, trace = []\<rparr>"
  by (simp add: initial_def RegisterDumpsysFunction_def UnregisterDumpsysFunction_def
      assert_that_def um_find_def um_insert_def um_erase_def)

text \<open>
  Claim C5. When a sequence of calls, made from the initial state, has gone through without
  an abort (every call in it succeeded), a token is in the registry exactly if the most
  recent call of the sequence that names it is a Register. Dump calls may stand anywhere in
  the sequence; they name no token.
\<close>

theorem membership_is_net_effect:
  "run_calls cs initial = Returned s' \<Longrightarrow>
   t \<in> um_keys (dumpsys_functions s') \<longleftrightarrow> last_was_Register t cs"
  using run_calls_membership [of cs initial s' t]
  by (simp add: last_was_Register_def initial_def um_keys_def split: option.splits)

theorem membership_is_net_effect_witness:
  "run_calls [Register 1 ''a'', Register 2 ''b'', Unregister 1] initial =
     Returned \<lparr>dumpsys_functions = [(2, ''b'')], promises = 0, trace = []\<rparr>
   \<and> (2 \<in> um_keys [(2::nat, ''b'')] \<longleftrightarrow> last_was_Register 2 [Register 1 ''a'', Register 2 ''b'', Unregister 1])
   \<and> (1 \<in> um_keys [(2::nat, ''b'')] \<longleftrightarrow> last_was_Register 1 [Register 1 ''a'', Register 2 ''b'', Unregister 1])
   \<and> last_was_Register 2 [Register 1 ''a'', Register 2 ''b'', Unregister 1]
   \<and> \<not> last_was_Register 1 [Register 1 ''a'', Register 2 ''b'', Unregister 1]"
  using membership_is_net_effect [OF example_run, of 2] membership_is_net_effect [OF example_run, of 1]
    example_run
  by (simp add: um_keys_def)

subsection \<open>The events of one Dump\<close>

lemma events_since_append: "trace s' = trace s @ es \<Longrightarrow> events_since s s' = es"
  by (simp add: events_since_def)

lemma collect_local_trace:
  "trace (collect_local fd s) = trace s @
     (if dumpsys_functions s = []
      then [Dprintf fd (kModuleName @ '' No registered dumpsys shim legacy targets\<newline>'')]
      else Dprintf fd (kModuleName @ '' Dumping shim legacy targets:''
                         @ show_zd (length (dumpsys_functions s)) @ ''\<newline>'')
           # map (\<lambda>d. HandlerCall (fst d) (snd d) fd) (dumpsys_functions s))"
  by (simp add: collect_local_def)

lemma Dump_trace:
  "trace (state_of (Dump mb fd args s)) =
     trace s @ events_since s (collect_local fd s) @ CallOnModule (promises s) fd args #
       (if call_on_module mb
        then [WaitFor (promises s) (snd (wait_for (seconds 1) (ready_after mb)))]
        else [Dprintf fd (kModuleName @ '' NOTE: gd dumpsys module not loaded or started\<newline>'')])"
  by (simp add: Dump_def await_module_trace collect_local_fields
      events_since_append [OF collect_local_trace] collect_local_trace)

lemma Dump_events:
  "events_since s (state_of (Dump mb fd args s)) =
     events_since s (collect_local fd s) @ CallOnModule (promises s) fd args #
       (if call_on_module mb
        then [WaitFor (promises s) (snd (wait_for (seconds 1) (ready_after mb)))]
        else [Dprintf fd (kModuleName @ '' NOTE: gd dumpsys module not loaded or started\<newline>'')])"
  by (rule events_since_append) (rule Dump_trace)

lemma collect_local_events:
  "events_since s (collect_local fd s) =
     (if dumpsys_functions s = []
      then [Dprintf fd (kModuleName @ '' No registered dumpsys shim legacy targets\<newline>'')]
      else Dprintf fd (kModuleName @ '' Dumping shim legacy targets:''
                         @ show_zd (length (dumpsys_functions s)) @ ''\<newline>'')
           # map (\<lambda>d. HandlerCall (fst d) (snd d) fd) (dumpsys_functions s))"
  by (rule events_since_append) (rule collect_local_trace)

lemma handler_calls_map: "handler_calls (map (\<lambda>d. HandlerCall (fst d) (snd d) fd) m) = map (\<lambda>d. HandlerCall (fst d) (snd d) fd) m"
  by (induction m) (simp_all add: handler_calls_def)

lemma handler_calls_append: "handler_calls (a @ b) = handler_calls a @ handler_calls b"
  by (simp add: handler_calls_def)

lemma submissions_append: "submissions (a @ b) = submissions a @ submissions b"
  by (simp add: submissions_def)

lemma submissions_map: "submissions (map (\<lambda>d. HandlerCall (fst d) (snd d) fd) m) = []"
  by (induction m) (simp_all add: submissions_def)

lemma waits_map: "waits (map (\<lambda>d. HandlerCall (fst d) (snd d) fd) m) = []"
  by (induction m) (simp_all add: waits_def)

lemma waits_local: "waits (events_since s (collect_local fd s)) = []"
  by (simp add: collect_local_events waits_map) (simp add: waits_def)

lemma submissions_local: "submissions (events_since s (collect_local fd s)) = []"
  by (simp add: collect_local_events submissions_map) (simp add: submissions_def)

lemma distinct_count_one: "distinct xs \<Longrightarrow> x \<in> set xs \<Longrightarrow> count_list xs x = 1"
  by (induction xs) auto

lemma count_calls:
  assumes "distinct (map fst m)" and "d \<in> set m"
  shows "count_list (map (\<lambda>d. HandlerCall (fst d) (snd d) fd) m) (HandlerCall (fst d) (snd d) fd) = 1"
proof -
  have inj: "inj_on (\<lambda>d. HandlerCall (fst d) (snd d) fd) (set m)"
    by (rule inj_onI) (simp add: prod_eq_iff)
  from assms(1) have "distinct m" by (simp add: distinct_map)
  with assms(2) have one: "count_list m d = 1" by (simp add: distinct_count_one)
  from count_list_inj_map [OF inj assms(2)] one show ?thesis by simp
qed

lemma Dump_returned_iff:
  "is_returned (Dump mb fd args s) \<longleftrightarrow>
     (call_on_module mb \<longrightarrow> fst (wait_for (seconds 1) (ready_after mb)) = ready)"
  by (simp add: Dump_def await_module_def new_promise_def assert_that_def Let_def case_prod_beta)

lemma Dump_aborted:
  "\<not> is_returned (Dump mb fd args s) \<Longrightarrow>
   Dump mb fd args s = Aborted ''Timed out waiting for dumpsys to complete'' (state_of (Dump mb fd args s))"
  by (simp add: Dump_def await_module_def new_promise_def assert_that_def Let_def case_prod_beta
      split: if_splits)

lemma Dump_returned:
  "is_returned (Dump mb fd args s) \<Longrightarrow> Dump mb fd args s = Returned (state_of (Dump mb fd args s))"
  by (cases "Dump mb fd args s") simp_all

lemma wait_for_ready: "fst (wait_for rel_time rdy) = ready \<longleftrightarrow> (\<exists>t. rdy = Some t \<and> t \<le> rel_time)"
  by (simp add: wait_for_def split: option.splits)

lemma wait_for_bound: "snd (wait_for rel_time rdy) \<le> rel_time"
  by (simp add: wait_for_def split: option.splits)

lemma show_zd_example: "show_zd 0 = ''0''" "show_zd 2 = ''2''" "show_zd 1234 = ''1234''"
  by (simp_all add: show_zd.simps digit_char_def)

lemmas dump_eval =
  Dump_def collect_local_def await_module_def new_promise_def assert_that_def wait_for_def
  seconds_def emit_def dprintf_def events_since_def kModuleName_def show_zd.simps
  digit_char_def Let_def handler_calls_def writes_def waits_def submissions_def

subsection \<open>Every registered handler is called once\<close>

text \<open>
  Claim C2. When the registry holds \<open>N > 0\<close> registrations, the events of a Dump are: the
  header line with \<open>N\<close> in decimal, then one call per entry of the registry with the
  caller's file descriptor (in iteration order, whatever that order is), then the hand-over
  to the module boundary, and after that no handler call any more. So the handler calls of
  the Dump are \<open>N\<close> in number, and since a token occurs once in the registry, the handler
  of each registration is called exactly once.
\<close>

theorem Dump_calls_every_handler_once:
  "dumpsys_functions s \<noteq> [] \<Longrightarrow>
   (\<exists>rest. events_since s (state_of (Dump mb fd args s)) =
       Dprintf fd (kModuleName @ '' Dumping shim legacy targets:''
                     @ show_zd (length (dumpsys_functions s)) @ ''\<newline>'')
       # map (\<lambda>d. HandlerCall (fst d) (snd d) fd) (dumpsys_functions s)
       @ CallOnModule (promises s) fd args # rest
     \<and> handler_calls rest = [])
   \<and> length (handler_calls (events_since s (state_of (Dump mb fd args s)))) = length (dumpsys_functions s)
   \<and> (distinct (map fst (dumpsys_functions s)) \<longrightarrow>
        (\<forall>d \<in> set (dumpsys_functions s).
           count_list (events_since s (state_of (Dump mb fd args s))) (HandlerCall (fst d) (snd d) fd) = 1))"
proof (intro conjI)
  assume ne: "dumpsys_functions s \<noteq> []"
  let ?hdr = "Dprintf fd (kModuleName @ '' Dumping shim legacy targets:''
                     @ show_zd (length (dumpsys_functions s)) @ ''\<newline>'')"
  let ?calls = "map (\<lambda>d. HandlerCall (fst d) (snd d) fd) (dumpsys_functions s)"
  let ?rest = "if call_on_module mb
        then [WaitFor (promises s) (snd (wait_for (seconds 1) (ready_after mb)))]
        else [Dprintf fd (kModuleName @ '' NOTE: gd dumpsys module not loaded or started\<newline>'')]"
  have ev: "events_since s (state_of (Dump mb fd args s)) =
      ?hdr # ?calls @ CallOnModule (promises s) fd args # ?rest"
    using ne by (simp add: Dump_events collect_local_events)
  have rest: "handler_calls ?rest = []" by (simp add: handler_calls_def)
  from ev rest show "\<exists>rest. events_since s (state_of (Dump mb fd args s)) =
       ?hdr # ?calls @ CallOnModule (promises s) fd args # rest \<and> handler_calls rest = []"
    by blast
  have hc: "handler_calls (events_since s (state_of (Dump mb fd args s))) = ?calls"
    unfolding ev using handler_calls_map [of fd "dumpsys_functions s"]
    by (simp add: handler_calls_def)
  then show "length (handler_calls (events_since s (state_of (Dump mb fd args s)))) = length (dumpsys_functions s)"
    by simp
  show "distinct (map fst (dumpsys_functions s)) \<longrightarrow>
        (\<forall>d \<in> set (dumpsys_functions s).
           count_list (events_since s (state_of (Dump mb fd args s))) (HandlerCall (fst d) (snd d) fd) = 1)"
    unfolding ev by (simp add: count_calls)
qed

theorem Dump_calls_every_handler_once_witness:
  "dumpsys_functions \<lparr>dumpsys_functions = [(1, ''a''), (2, ''b'')], promises = 0, trace = []\<rparr> \<noteq> []
   \<and> distinct (map fst (dumpsys_functions
          \<lparr>dumpsys_functions = [(1::nat, ''a''), (2, ''b'')], promises = 0, trace = []\<rparr>))
   \<and> events_since \<lparr>dumpsys_functions = [(1, ''a''), (2, ''b'')], promises = 0, trace = []\<rparr>
        (state_of (Dump \<lparr>call_on_module = False, ready_after = None\<rparr> 3 []
           \<lparr>dumpsys_functions = [(1, ''a''), (2, ''b'')], promises = 0, trace = []\<rparr>))
       = [Dprintf 3 ''shim::legacy::dumpsys Dumping shim legacy targets:2\<newline>'',
          HandlerCall 1 ''a'' 3, HandlerCall 2 ''b'' 3, CallOnModule 0 3 [],
          Dprintf 3 ''shim::legacy::dumpsys NOTE: gd dumpsys module not loaded or started\<newline>'']
   \<and> length (handler_calls
         (events_since \<lparr>dumpsys_functions = [(1, ''a''), (2, ''b'')], promises = 0, trace = []\<rparr>
           (state_of (Dump \<lparr>call_on_module = False, ready_after = None\<rparr> 3 []
              \<lparr>dumpsys_functions = [(1, ''a''), (2, ''b'')], promises = 0, trace = []\<rparr>)))) = 2
   \<and> count_list
         (events_since \<lparr>dumpsys_functions = [(1, ''a''), (2, ''b'')], promises = 0, trace = []\<rparr>
           (state_of (Dump \<lparr>call_on_module = False, ready_after = None\<rparr> 3 []
              \<lparr>dumpsys_functions = [(1, ''a''), (2, ''b'')], promises = 0, trace = []\<rparr>)))
         (HandlerCall 2 ''b'' 3) = 1"
  using Dump_calls_every_handler_once
    [of "\<lparr>dumpsys_functions = [(1, ''a''), (2, ''b'')], promises = 0, trace = []\<rparr>"
        "\<lparr>call_on_module = False, ready_after = None\<rparr>" 3 "[]"]
  by (simp add: dump_eval)

subsection \<open>Dump on an empty registry\<close>

text \<open>
  Claim C6. With nothing registered, lines 50 to 57 write the one line that says so and call
  no handler; the Dump then goes on to the module boundary, where it either waits (module
  there) or writes the note (module not there).
\<close>

theorem Dump_on_empty_registry:
  "dumpsys_functions s = [] \<Longrightarrow>
   events_since s (collect_local fd s) =
     [Dprintf fd (kModuleName @ '' No registered dumpsys shim legacy targets\<newline>'')]
   \<and> events_since s (state_of (Dump mb fd args s)) =
       Dprintf fd (kModuleName @ '' No registered dumpsys shim legacy targets\<newline>'')
       # CallOnModule (promises s) fd args
       # (if call_on_module mb
          then [WaitFor (promises s) (snd (wait_for (seconds 1) (ready_after mb)))]
          else [Dprintf fd (kModuleName @ '' NOTE: gd dumpsys module not loaded or started\<newline>'')])
   \<and> handler_calls (events_since s (state_of (Dump mb fd args s))) = []"
  by (simp add: Dump_events collect_local_events handler_calls_def)

theorem Dump_on_empty_registry_witness:
  "dumpsys_functions \<lparr>dumpsys_functions = ([] :: (nat \<times> string) list), promises = 0, trace = []\<rparr> = []
   \<and> events_since \<lparr>dumpsys_functions = ([] :: (nat \<times> string) list), promises = 0, trace = []\<rparr>
        (collect_local 3 \<lparr>dumpsys_functions = [], promises = 0, trace = []\<rparr>)
       = [Dprintf 3 ''shim::legacy::dumpsys No registered dumpsys shim legacy targets\<newline>'']
   \<and> events_since \<lparr>dumpsys_functions = ([] :: (nat \<times> string) list), promises = 0, trace = []\<rparr>
        (state_of (Dump \<lparr>call_on_module = True, ready_after = Some 5\<rparr> 3 []
           \<lparr>dumpsys_functions = [], promises = 0, trace = []\<rparr>))
       = [Dprintf 3 ''shim::legacy::dumpsys No registered dumpsys shim legacy targets\<newline>'',
          CallOnModule 0 3 [], WaitFor 0 5]
   \<and> handler_calls
        (events_since \<lparr>dumpsys_functions = ([] :: (nat \<times> string) list), promises = 0, trace = []\<rparr>
          (state_of (Dump \<lparr>call_on_module = True, ready_after = Some 5\<rparr> 3 []
             \<lparr>dumpsys_functions = [], promises = 0, trace = []\<rparr>))) = []"
  using Dump_on_empty_registry
    [of "\<lparr>dumpsys_functions = ([] :: (nat \<times> string) list), promises = 0, trace = []\<rparr>" 3
        "\<lparr>call_on_module = True, ready_after = Some 5\<rparr>" "[]"]
  by (simp add: dump_eval)

subsection \<open>The module is not there\<close>

text \<open>
  Claim C4. When \<^verbatim>\<open>CallOnModule\<close> returns false, Dump returns to its caller (no abort);
  after the local handlers and the attempted hand-over it writes exactly one line, the note
  that the module is not loaded or started; and it never waits on the future.
\<close>

theorem Dump_without_module:
  "\<not> call_on_module mb \<Longrightarrow>
   Dump mb fd args s = Returned (state_of (Dump mb fd args s))
   \<and> events_since s (state_of (Dump mb fd args s)) =
       events_since s (collect_local fd s)
       @ [CallOnModule (promises s) fd args,
          Dprintf fd (kModuleName @ '' NOTE: gd dumpsys module not loaded or started\<newline>'')]
   \<and> writes (events_since (collect_local fd s) (state_of (Dump mb fd args s))) =
       [Dprintf fd (kModuleName @ '' NOTE: gd dumpsys module not loaded or started\<newline>'')]
   \<and> waits (events_since s (state_of (Dump mb fd args s))) = []"
proof (intro conjI)
  assume no: "\<not> call_on_module mb"
  then have "is_returned (Dump mb fd args s)" by (simp add: Dump_returned_iff)
  then show "Dump mb fd args s = Returned (state_of (Dump mb fd args s))" by (rule Dump_returned)
  from no show ev: "events_since s (state_of (Dump mb fd args s)) =
       events_since s (collect_local fd s)
       @ [CallOnModule (promises s) fd args,
          Dprintf fd (kModuleName @ '' NOTE: gd dumpsys module not loaded or started\<newline>'')]"
    by (simp add: Dump_events)
  from no have "trace (state_of (Dump mb fd args s)) = trace (collect_local fd s)
       @ [CallOnModule (promises s) fd args,
          Dprintf fd (kModuleName @ '' NOTE: gd dumpsys module not loaded or started\<newline>'')]"
    by (simp add: Dump_def await_module_trace collect_local_fields)
  from events_since_append [OF this]
  show "writes (events_since (collect_local fd s) (state_of (Dump mb fd args s))) =
       [Dprintf fd (kModuleName @ '' NOTE: gd dumpsys module not loaded or started\<newline>'')]"
    by (simp add: writes_def)
  show "waits (events_since s (state_of (Dump mb fd args s))) = []"
    unfolding ev using waits_local [of s fd] by (simp add: waits_def)
qed

theorem Dump_without_module_witness:
  "\<not> call_on_module \<lparr>call_on_module = False, ready_after = None\<rparr>
   \<and> Dump \<lparr>call_on_module = False, ready_after = None\<rparr> 3 []
        \<lparr>dumpsys_functions = [(1, ''a'')], promises = 0, trace = []\<rparr>
       = Returned \<lparr>dumpsys_functions = [(1, ''a'')], promises = 1,
           trace = [Dprintf 3 ''shim::legacy::dumpsys Dumping shim legacy targets:1\<newline>'',
                    HandlerCall 1 ''a'' 3, CallOnModule 0 3 [],
                    Dprintf 3 ''shim::legacy::dumpsys NOTE: gd dumpsys module not loaded or started\<newline>'']\<rparr>
   \<and> writes (events_since (collect_local 3 \<lparr>dumpsys_functions = [(1, ''a'')], promises = 0, trace = []\<rparr>)
        (state_of (Dump \<lparr>call_on_module = False, ready_after = None\<rparr> 3 []
           \<lparr>dumpsys_functions = [(1, ''a'')], promises = 0, trace = []\<rparr>)))
       = [Dprintf 3 ''shim::legacy::dumpsys NOTE: gd dumpsys module not loaded or started\<newline>'']
   \<and> waits (events_since \<lparr>dumpsys_functions = [(1, ''a'')], promises = 0, trace = []\<rparr>
        (state_of (Dump \<lparr>call_on_module = False, ready_after = None\<rparr> 3 []
           \<lparr>dumpsys_functions = [(1, ''a'')], promises = 0, trace = []\<rparr>))) = []"
  using Dump_without_module
    [of "\<lparr>call_on_module = False, ready_after = None\<rparr>" 3 "[]"
        "\<lparr>dumpsys_functions = [(1, ''a'')], promises = 0, trace = []\<rparr>"]
  by (simp add: dump_eval)

subsection \<open>The module is there: the bounded wait\<close>

text \<open>
  Claim C1. When \<^verbatim>\<open>CallOnModule\<close> returns true, Dump waits once on the future of the
  promise it handed over, for no longer than one second. It returns to its caller exactly if
  the promise's shared state becomes ready within that second; otherwise, in particular
  when it never becomes ready, the process is aborted with the timeout message. (The
  instant exactly one second after the start of the wait counts as within the bound.)
\<close>

theorem Dump_bounded_wait:
  "call_on_module mb \<Longrightarrow>
   (is_returned (Dump mb fd args s) \<longleftrightarrow> (\<exists>t. ready_after mb = Some t \<and> t \<le> seconds 1))
   \<and> (\<not> is_returned (Dump mb fd args s) \<longrightarrow>
        Dump mb fd args s =
          Aborted ''Timed out waiting for dumpsys to complete'' (state_of (Dump mb fd args s)))
   \<and> (ready_after mb = None \<longrightarrow> \<not> is_returned (Dump mb fd args s))
   \<and> (\<exists>d. waits (events_since s (state_of (Dump mb fd args s))) = [WaitFor (promises s) d]
          \<and> d \<le> seconds 1)"
proof (intro conjI)
  assume yes: "call_on_module mb"
  then show iff: "is_returned (Dump mb fd args s) \<longleftrightarrow> (\<exists>t. ready_after mb = Some t \<and> t \<le> seconds 1)"
    by (simp add: Dump_returned_iff wait_for_ready)
  show "\<not> is_returned (Dump mb fd args s) \<longrightarrow>
        Dump mb fd args s =
          Aborted ''Timed out waiting for dumpsys to complete'' (state_of (Dump mb fd args s))"
    using Dump_aborted by blast
  from iff show "ready_after mb = None \<longrightarrow> \<not> is_returned (Dump mb fd args s)" by simp
  have "waits (events_since s (state_of (Dump mb fd args s))) =
      [WaitFor (promises s) (snd (wait_for (seconds 1) (ready_after mb)))]"
    using yes waits_local [of s fd] by (simp add: Dump_events waits_def)
  with wait_for_bound [of "seconds 1" "ready_after mb"]
  show "\<exists>d. waits (events_since s (state_of (Dump mb fd args s))) = [WaitFor (promises s) d]
          \<and> d \<le> seconds 1"
    by blast
qed

theorem Dump_bounded_wait_witness:
  "call_on_module \<lparr>call_on_module = True, ready_after = None\<rparr>
   \<and> Dump \<lparr>call_on_module = True, ready_after = None\<rparr> 3 []
        \<lparr>dumpsys_functions = [(1, ''a'')], promises = 0, trace = []\<rparr>
       = Aborted ''Timed out waiting for dumpsys to complete''
          \<lparr>dumpsys_functions = [(1, ''a'')], promises = 1,
           trace = [Dprintf 3 ''shim::legacy::dumpsys Dumping shim legacy targets:1\<newline>'',
                    HandlerCall 1 ''a'' 3, CallOnModule 0 3 [], WaitFor 0 1000000000]\<rparr>
   \<and> call_on_module \<lparr>call_on_module = True, ready_after = Some 1000000000\<rparr>
   \<and> is_returned (Dump \<lparr>call_on_module = True, ready_after = Some 1000000000\<rparr> 3 []
        \<lparr>dumpsys_functions = [(1, ''a'')], promises = 0, trace = []\<rparr>)
   \<and> call_on_module \<lparr>call_on_module = True, ready_after = Some 1000000001\<rparr>
   \<and> \<not> is_returned (Dump \<lparr>call_on_module = True, ready_after = Some 1000000001\<rparr> 3 []
        \<lparr>dumpsys_functions = [(1, ''a'')], promises = 0, trace = []\<rparr>)"
  using Dump_bounded_wait
    [of "\<lparr>call_on_module = True, ready_after = None\<rparr>" 3 "[]"
        "\<lparr>dumpsys_functions = [(1, ''a'')], promises = 0, trace = []\<rparr>"]
    Dump_bounded_wait
    [of "\<lparr>call_on_module = True, ready_after = Some 1000000000\<rparr>" 3 "[]"
        "\<lparr>dumpsys_functions = [(1, ''a'')], promises = 0, trace = []\<rparr>"]
    Dump_bounded_wait
    [of "\<lparr>call_on_module = True, ready_after = Some 1000000001\<rparr>" 3 "[]"
        "\<lparr>dumpsys_functions = [(1, ''a'')], promises = 0, trace = []\<rparr>"]
  by (simp add: dump_eval)

subsection \<open>One hand-over per Dump, each with a new promise\<close>

lemma Dump_submissions:
  "submissions (trace (state_of (Dump mb fd args s))) = submissions (trace s) @ [promises s]"
  by (simp add: Dump_trace submissions_append submissions_local) (simp add: submissions_def)

lemma Dump_promises: "promises (state_of (Dump mb fd args s)) = Suc (promises s)"
  by (simp add: Dump_def await_module_fields collect_local_fields)

lemma perform_promises:
  assumes "\<forall>p \<in> set (submissions (trace s)). p < promises s"
    and "distinct (submissions (trace s))"
  shows "(\<forall>p \<in> set (submissions (trace (state_of (perform c s)))). p < promises (state_of (perform c s)))
     \<and> distinct (submissions (trace (state_of (perform c s))))"
proof (cases c)
  case (Register tok func)
  with assms show ?thesis
    by (simp add: RegisterDumpsysFunction_def assert_that_def)
next
  case (Unregister tok)
  with assms show ?thesis
    by (simp add: UnregisterDumpsysFunction_def assert_that_def)
next
  case (DumpCall mb fd args)
  with assms show ?thesis
    by (auto simp: Dump_submissions Dump_promises less_Suc_eq)
qed

lemma run_calls_promises:
  assumes "\<forall>p \<in> set (submissions (trace s)). p < promises s"
    and "distinct (submissions (trace s))"
  shows "(\<forall>p \<in> set (submissions (trace (state_of (run_calls cs s)))). p < promises (state_of (run_calls cs s)))
     \<and> distinct (submissions (trace (state_of (run_calls cs s))))"
  using assms
proof (induction cs arbitrary: s)
  case Nil
  then show ?case by simp
next
  case (Cons c cs)
  note step = perform_promises [OF Cons.prems, of c]
  show ?case
  proof (cases "perform c s")
    case (Returned s1)
    with step have "\<forall>p \<in> set (submissions (trace s1)). p < promises s1"
      and "distinct (submissions (trace s1))" by simp_all
    from Cons.IH [OF this] show ?thesis by (simp add: Returned)
  next
    case (Aborted msg s1)
    with step show ?thesis by simp
  qed
qed

text \<open>
  Claim C10. Every Dump, whatever the registry holds (nothing included) and whatever the
  module boundary answers, hands exactly one closure to \<^verbatim>\<open>CallOnModule\<close>, with the promise
  constructed in that very call. In every state the process can reach, the promise the
  next Dump will construct has not been handed over before, and no promise has been
  handed over twice.
\<close>

theorem Dump_submits_exactly_once:
  "submissions (events_since s (state_of (Dump mb fd args s))) = [promises s]
   \<and> promises (state_of (run_calls cs initial))
        \<notin> set (submissions (trace (state_of (run_calls cs initial))))
   \<and> distinct (submissions (trace (state_of (run_calls cs initial))))"
proof (intro conjI)
  show "submissions (events_since s (state_of (Dump mb fd args s))) = [promises s]"
    by (simp add: Dump_events submissions_append submissions_local) (simp add: submissions_def)
  have inv: "(\<forall>p \<in> set (submissions (trace (state_of (run_calls cs (initial :: 'b shim_state))))).
                p < promises (state_of (run_calls cs (initial :: 'b shim_state))))
     \<and> distinct (submissions (trace (state_of (run_calls cs (initial :: 'b shim_state)))))"
    by (rule run_calls_promises) (simp_all add: initial_def submissions_def)
  then show "distinct (submissions (trace (state_of (run_calls cs (initial :: 'b shim_state)))))"
    by blast
  from inv show "promises (state_of (run_calls cs (initial :: 'b shim_state)))
        \<notin> set (submissions (trace (state_of (run_calls cs initial))))"
    by blast
qed

theorem Dump_submits_exactly_once_witness:
  "submissions (events_since \<lparr>dumpsys_functions = [], promises = 4, trace = []\<rparr>
      (state_of (Dump \<lparr>call_on_module = True, ready_after = None\<rparr> 3 []
         \<lparr>dumpsys_functions = ([] :: (nat \<times> string) list), promises = 4, trace = []\<rparr>))) = [4]
   \<and> promises (state_of (run_calls
          [DumpCall \<lparr>call_on_module = False, ready_after = None\<rparr> 3 [], Register 1 ''a'',
           DumpCall \<lparr>call_on_module = True, ready_after = Some 5\<rparr> 3 []] initial))
        \<notin> set (submissions (trace (state_of (run_calls
          [DumpCall \<lparr>call_on_module = False, ready_after = None\<rparr> 3 [], Register 1 ''a'',
           DumpCall \<lparr>call_on_module = True, ready_after = Some 5\<rparr> 3 []] initial))))
   \<and> distinct (submissions (trace (state_of (run_calls
          [DumpCall \<lparr>call_on_module = False, ready_after = None\<rparr> 3 [], Register 1 ''a'',
           DumpCall \<lparr>call_on_module = True, ready_after = Some 5\<rparr> 3 []] initial))))"
  using Dump_submits_exactly_once
    [of "\<lparr>dumpsys_functions = ([] :: (nat \<times> string) list), promises = 4, trace = []\<rparr>"
        "\<lparr>call_on_module = True, ready_after = None\<rparr>" 3 "[]"
        "[DumpCall \<lparr>call_on_module = False, ready_after = None\<rparr> 3 [], Register 1 ''a'',
           DumpCall \<lparr>call_on_module = True, ready_after = Some 5\<rparr> 3 []]"]
  by simp

subsection \<open>No lock: atomic only without overlap\<close>

lemma four: "replicate 4 i = [i, i, i, i]"
  by (simp add: numeral_eq_Suc)

lemma exec_alone:
  assumes "i < length pcs" and "pcs ! i = start c"
  shows "shared (exec (replicate 4 i @ sched) pcs s) =
     (case perform c s of
        Returned s' \<Rightarrow> shared (exec sched (pcs[i := Finished]) s')
      | Aborted msg s' \<Rightarrow> Aborted msg s')"
proof (cases c)
  case (Register tok func)
  with assms show ?thesis
    by (simp add: four RegisterDumpsysFunction_def assert_that_def)
next
  case (Unregister tok)
  with assms show ?thesis
    by (simp add: four UnregisterDumpsysFunction_def assert_that_def)
next
  case (DumpCall mb fd args)
  with assms show ?thesis
    by (simp add: four Dump_def collect_local_def split: outcome.splits)
qed

lemma serial_Suc: "serial k (Suc n) = replicate 4 k @ serial (Suc k) n"
  by (simp add: serial_def upt_rec [of k])

lemma exec_serial:
  "shared (exec (serial k (length cs)) (replicate k Finished @ map start cs) s) = run_calls cs s"
proof (induction cs arbitrary: k s)
  case Nil
  show ?case by (simp add: serial_def)
next
  case (Cons c cs)
  let ?pcs = "replicate k Finished @ map start (c # cs)"
  have len: "k < length ?pcs" by simp
  have at: "?pcs ! k = start c" by (simp add: nth_append)
  have upd: "?pcs[k := Finished] = replicate (Suc k) Finished @ map start cs"
    by (simp add: list_update_append replicate_append_same)
  show ?case
    using exec_alone [OF len at, of "serial (Suc k) (length cs)" s] Cons.IH [of "Suc k"]
    by (simp only: length_Cons serial_Suc upd run_calls.simps split: outcome.splits)
qed

text \<open>
  Claim C8 says that the registry is guarded by a mutual exclusion that makes Register,
  Unregister and the iteration of Dump atomic with respect to each other. The file has no
  such guard. Here a Dump (thread 0) finds the registry non-empty on line 50, an Unregister
  (thread 1) then removes the only entry, and the Dump goes on with line 53: it announces
  0 targets, a header that neither order of the two calls, run one after the other, can
  produce.
\<close>

theorem unlocked_registry_counterexample:
  "exec [0, 1, 1, 0, 0, 0]
      [start (DumpCall \<lparr>call_on_module = False, ready_after = None\<rparr> 3 []), start (Unregister 7)]
      \<lparr>dumpsys_functions = [(7, ''h'')], promises = 0, trace = []\<rparr>
     = Returned ([Finished, Finished],
         \<lparr>dumpsys_functions = [], promises = 1,
          trace = [Dprintf 3 ''shim::legacy::dumpsys Dumping shim legacy targets:0\<newline>'',
                   CallOnModule 0 3 [],
                   Dprintf 3 ''shim::legacy::dumpsys NOTE: gd dumpsys module not loaded or started\<newline>'']\<rparr>)
   \<and> \<not> atomic_pair [0, 1, 1, 0, 0, 0]
        (DumpCall \<lparr>call_on_module = False, ready_after = None\<rparr> 3 []) (Unregister 7)
        \<lparr>dumpsys_functions = [(7, ''h'')], promises = 0, trace = []\<rparr>"
  by (simp add: atomic_pair_def Dump_def collect_local_def await_module_def new_promise_def
      UnregisterDumpsysFunction_def assert_that_def um_find_def um_erase_def emit_def dprintf_def
      kModuleName_def show_zd.simps digit_char_def Let_def)

text \<open>
  Claim C8, amended. The registry is not synchronised internally; the calls are atomic with
  respect to each other when they do not overlap. Threads that take their steps one thread
  after the other (each call running to its end before the next begins) leave the outcome
  of the same calls made in sequence; in particular any two calls are then atomic with
  respect to each other.
\<close>

theorem serial_calls_are_atomic:
  "shared (exec (serial 0 (length cs)) (map start cs) s) = run_calls cs s
   \<and> atomic_pair (serial 0 2) a b s"
proof
  show all: "shared (exec (serial 0 (length cs)) (map start cs) s) = run_calls cs s" for cs :: "'a call list"
    using exec_serial [of 0 cs s] by simp
  from all [of "[a, b]"]
  have "shared (exec (serial 0 2) [start a, start b] s) = run_calls [a, b] s"
    by (simp add: numeral_2_eq_2)
  then show "atomic_pair (serial 0 2) a b s"
    unfolding atomic_pair_def by (rule disjI1)
qed

theorem serial_calls_are_atomic_witness:
  "shared (exec (serial 0 (length ([DumpCall \<lparr>call_on_module = False, ready_after = None\<rparr> 3 [], Unregister 7] :: string call list)))
      (map start [DumpCall \<lparr>call_on_module = False, ready_after = None\<rparr> 3 [], Unregister 7])
      \<lparr>dumpsys_functions = [(7, ''h'')], promises = 0, trace = []\<rparr>)
     = run_calls [DumpCall \<lparr>call_on_module = False, ready_after = None\<rparr> 3 [], Unregister 7]
         \<lparr>dumpsys_functions = [(7, ''h'')], promises = 0, trace = []\<rparr>
   \<and> atomic_pair (serial 0 2)
        (DumpCall \<lparr>call_on_module = False, ready_after = None\<rparr> 3 []) (Unregister 7)
        \<lparr>dumpsys_functions = [(7, ''h'')], promises = 0, trace = []\<rparr>"
  by (rule serial_calls_are_atomic)

end
